theory Spec2Isabelle
  imports Main
begin

section \<open>Shell primitives used by \<^verbatim>\<open>src/docker_build.sh\<close>\<close>

text \<open>
  Shell variables hold byte strings (\<^typ>\<open>string\<close>); an unset variable or positional
  parameter expands to the empty string (the script does not \<^verbatim>\<open>set -u\<close>).
\<close>

definition NL :: char where
  "NL = CHR 0x0A"

definition CR :: char where
  "CR = CHR 0x0D"

definition TAB :: char where
  "TAB = CHR 0x09"

definition BS :: char where
  "BS = CHR 0x5C"

text \<open>
  Command substitution (\<^verbatim>\<open>`cmd`\<close>, \<^verbatim>\<open>$(cmd)\<close>) yields the standard output of the command
  with every trailing newline removed.
\<close>

definition command_substitution :: "string \<Rightarrow> string" where
  "command_substitution out = rev (dropWhile (\<lambda>c. c = NL) (rev out))"

text \<open>
  Substring expansion: \<^verbatim>\<open>${v:off:len}\<close> and \<^verbatim>\<open>${v:off}\<close>, for the non-negative offsets
  and lengths of the script.
\<close>

definition substring :: "string \<Rightarrow> nat \<Rightarrow> nat \<Rightarrow> string" where
  "substring v off len = take len (drop off v)"

definition substring_from :: "string \<Rightarrow> nat \<Rightarrow> string" where
  "substring_from v off = drop off v"

text \<open>
  An unquoted expansion (\<^verbatim>\<open>$v\<close> as a command argument) is split into fields at runs of
  the default \<^verbatim>\<open>IFS\<close> characters (space, tab, newline); each field then undergoes pathname
  expansion. Which file names a field matches depends on the working directory, so the
  matcher is a parameter: it returns the matching names, and the empty list when the field
  is no pattern or matches nothing, in which case the field is kept as it is.
\<close>

definition is_ifs :: "char \<Rightarrow> bool" where
  "is_ifs c = (c = CHR '' '' \<or> c = TAB \<or> c = NL)"

fun split_fields :: "string \<Rightarrow> string \<Rightarrow> string list" where
  "split_fields w [] = (if w = [] then [] else [w])"
| "split_fields w (c # cs) =
     (if is_ifs c then (if w = [] then split_fields [] cs else w # split_fields [] cs)
      else split_fields (w @ [c]) cs)"

definition pathname_expansion :: "(string \<Rightarrow> string list) \<Rightarrow> string \<Rightarrow> string list" where
  "pathname_expansion g w = (if g w = [] then [w] else g w)"

definition unquoted :: "(string \<Rightarrow> string list) \<Rightarrow> string \<Rightarrow> string list" where
  "unquoted g v = concat (map (pathname_expansion g) (split_fields [] v))"

section \<open>Regular expressions of the script\<close>

text \<open>
  The script uses two patterns, \<^verbatim>\<open>.*/(.*):(.*)\<close> (an extended regular expression, matched
  by \<^verbatim>\<open>[[ $base_image =~ $regex ]]\<close>) and \<^verbatim>\<open>\(.*\)\.amazon\<close> (a basic regular expression,
  matched by \<^verbatim>\<open>expr\<close>). Both are sequences of three kinds of pieces: a literal character,
  \<^verbatim>\<open>.*\<close>, and a parenthesised \<^verbatim>\<open>.*\<close> whose match is captured. Neither matcher sets
  \<^verbatim>\<open>REG_NEWLINE\<close>, so the dot matches every character.
\<close>

datatype piece = Lit char | DotStar | Group_DotStar

text \<open>All ways to cut a string in two, the longest first part first.\<close>

fun cuts :: "string \<Rightarrow> (string \<times> string) list" where
  "cuts [] = [([], [])]"
| "cuts (x # xs) = map (\<lambda>(p, r). (x # p, r)) (cuts xs) @ [([], x # xs)]"

text \<open>
  \<open>matches ps s\<close> lists every way in which \<open>ps\<close> matches at the start of \<open>s\<close>: the
  captured substrings and the unmatched rest of \<open>s\<close>. A starred piece tries its longest
  match first, so the list is ordered by the lengths of the pieces' matches, from left to
  right, longest first.
\<close>

fun matches :: "piece list \<Rightarrow> string \<Rightarrow> (string list \<times> string) list" where
  "matches [] s = [([], s)]"
| "matches (Lit c # ps) s =
     (case s of [] \<Rightarrow> [] | x # xs \<Rightarrow> if x = c then matches ps xs else [])"
| "matches (DotStar # ps) s = concat (map (\<lambda>(p, r). matches ps r) (cuts s))"
| "matches (Group_DotStar # ps) s =
     concat (map (\<lambda>(p, r). map (\<lambda>(caps, rest). (p # caps, rest)) (matches ps r)) (cuts s))"

text \<open>
  POSIX matching takes the longest match at the position; among the ways to obtain it, each
  piece, from left to right, matches as much as it can. \<open>longest\<close> selects the first
  candidate that leaves the shortest rest.
\<close>

fun longest :: "(string list \<times> string) list \<Rightarrow> (string list \<times> string) option" where
  "longest [] = None"
| "longest (c # cs) =
     (case longest cs of
        None \<Rightarrow> Some c
      | Some d \<Rightarrow> if length (snd c) \<le> length (snd d) then Some c else Some d)"

text \<open>\<^verbatim>\<open>regexec\<close> searches: the match starts at the leftmost position where there is one.\<close>

fun regexec :: "piece list \<Rightarrow> string \<Rightarrow> string list option" where
  "regexec ps [] = map_option fst (longest (matches ps []))"
| "regexec ps (x # xs) =
     (case longest (matches ps (x # xs)) of
        Some m \<Rightarrow> Some (fst m)
      | None \<Rightarrow> regexec ps xs)"

text \<open>
  \<^verbatim>\<open>expr STRING : REGEX\<close> matches at the start of the string only, and prints the first
  captured substring, or nothing when there is no match, followed by a newline. The string
  is taken as an operand: the few strings that \<^verbatim>\<open>expr\<close> reads as an operator of its own
  (a parenthesis, \<^verbatim>\<open>+\<close>, \<^verbatim>\<open>match\<close>, \<^verbatim>\<open>index\<close>, \<^verbatim>\<open>length\<close>, \<^verbatim>\<open>substr\<close>) are not told apart.
\<close>

definition expr_match :: "string \<Rightarrow> piece list \<Rightarrow> string" where
  "expr_match s ps =
     (case longest (matches ps s) of
        None \<Rightarrow> [NL]
      | Some m \<Rightarrow> (case fst m of [] \<Rightarrow> [] | g # _ \<Rightarrow> g) @ [NL])"

text \<open>\<^verbatim>\<open>regex='.*/(.*):(.*)'\<close>\<close>

definition regex :: "piece list" where
  "regex = [DotStar, Lit (CHR ''/''), Group_DotStar, Lit (CHR '':''), Group_DotStar]"

text \<open>
  \<^verbatim>\<open>${BASH_REMATCH[k]}\<close> for \<open>k \<ge> 1\<close> is the match of the \<open>k\<close>-th parenthesised piece.
  After a failed match the array \<^verbatim>\<open>BASH_REMATCH\<close> is empty, and the expansion is the empty
  string.
\<close>

definition bash_rematch :: "string list option \<Rightarrow> nat \<Rightarrow> string" where
  "bash_rematch m k =
     (case m of
        None \<Rightarrow> []
      | Some caps \<Rightarrow> if 1 \<le> k \<and> k \<le> length caps then caps ! (k - 1) else [])"

text \<open>The pattern \<^verbatim>\<open>'\(.*\)\.amazon'\<close> given to \<^verbatim>\<open>expr\<close>.\<close>

definition amazon_pattern :: "piece list" where
  "amazon_pattern = Group_DotStar # map Lit ''.amazon''"

section \<open>The customization procedure \<^verbatim>\<open>src/docker_build.sh\<close>\<close>

text \<open>
  The script runs external programs. What they print and return is not decided by the
  script, so it is a parameter of the model: the record below holds, for each command
  whose output or exit status the script reads, that output or status, and the pathname
  matcher of the working directory.
\<close>

record env =
  base_image_uri_txt :: string
    \<comment> \<open>output of \<^verbatim>\<open>cat base_image_uri.txt\<close>: the contents of the file, a text without
      NUL bytes (empty when the file does not exist)\<close>
  aws_configure_get_region :: string
    \<comment> \<open>output of \<^verbatim>\<open>aws configure get region\<close>\<close>
  aws_sts_get_caller_identity :: string
    \<comment> \<open>output of \<^verbatim>\<open>aws sts get-caller-identity --query Account --output text\<close>\<close>
  aws_ecr_get_authorization_token :: string
    \<comment> \<open>output of \<^verbatim>\<open>aws ecr get-authorization-token ...\<close>\<close>
  base64_d :: "string \<Rightarrow> string"
    \<comment> \<open>output of \<^verbatim>\<open>base64 -d\<close> on a given standard input\<close>
  docker_run_find :: string
    \<comment> \<open>output of \<^verbatim>\<open>docker run -t base_image find / -name "sagemaker_xgboost_container"\<close>\<close>
  describe_repositories_status :: nat
    \<comment> \<open>exit status of \<^verbatim>\<open>aws ecr describe-repositories ...\<close>\<close>
  glob :: "string \<Rightarrow> string list"
    \<comment> \<open>pathname expansion in the working directory\<close>

text \<open>
  What the script does is the sequence of commands it runs: a simple command with its
  argument vector, a command reading a here-string, or a pipeline of two commands.
  Redirections of output to \<^verbatim>\<open>/dev/null\<close> are left out.
\<close>

datatype call =
    Call "string list"
  | Call_here_string "string list" string
  | Pipe call call

text \<open>
  The script's variables, as functions of the environment \<open>e\<close> and of the first
  positional parameter \<open>a\<close> (\<^verbatim>\<open>$1\<close>, empty when the script is run without arguments).
\<close>

definition base_image :: "env \<Rightarrow> string \<Rightarrow> string" where
  "base_image e a = (if a = [] then command_substitution (base_image_uri_txt e) else a)"

definition namespace :: string where
  "namespace = ''custom_images''"

definition region :: "env \<Rightarrow> string" where
  "region e = command_substitution (aws_configure_get_region e)"

definition account :: "env \<Rightarrow> string" where
  "account e = command_substitution (aws_sts_get_caller_identity e)"

definition base_account :: "env \<Rightarrow> string \<Rightarrow> string" where
  "base_account e a = substring (base_image e a) 0 12"

definition base_region :: "env \<Rightarrow> string \<Rightarrow> string" where
  "base_region e a =
     command_substitution (expr_match (substring_from (base_image e a) 21) amazon_pattern)"

definition algorithm :: "env \<Rightarrow> string \<Rightarrow> string" where
  "algorithm e a = bash_rematch (regexec regex (base_image e a)) 1"

definition version :: "env \<Rightarrow> string \<Rightarrow> string" where
  "version e a = bash_rematch (regexec regex (base_image e a)) 2"

definition token :: "env \<Rightarrow> string" where
  "token e =
     command_substitution
       (base64_d e (command_substitution (aws_ecr_get_authorization_token e) @ [NL]))"

definition xgboost_path :: "env \<Rightarrow> string" where
  "xgboost_path e = command_substitution (filter (\<lambda>c. c \<noteq> CR) (docker_run_find e))"

definition repository_name :: "env \<Rightarrow> string \<Rightarrow> string" where
  "repository_name e a = namespace @ ''/'' @ algorithm e a @ ''-'' @ version e a"

definition fullname :: "env \<Rightarrow> string \<Rightarrow> string" where
  "fullname e a =
     account e @ ''.dkr.ecr.'' @ region e @ ''.amazonaws.com/'' @ namespace @ ''/'' @
     algorithm e a @ ''-'' @ version e a"

text \<open>The commands of the script, in the order in which it runs them.\<close>

definition get_base_image :: "env \<Rightarrow> string \<Rightarrow> call list" where
  "get_base_image e a =
     (if a = [] then
        [Call [''echo'', ''getting base image from base_image_uri.txt file''],
         Call [''cat'', ''base_image_uri.txt''],
         Call (''echo'' # unquoted (glob e) (base_image e a))]
      else [])"

definition parse_base_image :: "env \<Rightarrow> string \<Rightarrow> call list" where
  "parse_base_image e a =
     [Call [''aws'', ''configure'', ''get'', ''region''],
      Call [''aws'', ''sts'', ''get-caller-identity'', ''--query'', ''Account'', ''--output'',
        ''text''],
      Call [''expr'', substring_from (base_image e a) 21, '':'',
        [BS] @ ''(.*'' @ [BS] @ '')'' @ [BS] @ ''.amazon''],
      Call (''echo'' # unquoted (glob e) (algorithm e a)),
      Call (''echo'' # unquoted (glob e) (version e a))]"

definition pull_base_image :: "env \<Rightarrow> string \<Rightarrow> call list" where
  "pull_base_image e a =
     [Call ([''aws'', ''ecr'', ''get-authorization-token'', ''--region''] @
        unquoted (glob e) (base_account e a) @ [''--registry-ids''] @
        unquoted (glob e) (base_account e a) @
        [''--output'', ''text'', ''--query'', ''authorizationData[].authorizationToken'']),
      Call_here_string [''base64'', ''-d'']
        (command_substitution (aws_ecr_get_authorization_token e)),
      Pipe (Call (''echo'' # unquoted (glob e) (substring_from (token e) 4)))
        (Call [''docker'', ''login'', ''--username'', ''AWS'', ''--password-stdin'',
           base_account e a @ ''.dkr.ecr.'' @ base_region e a @ ''.amazonaws.com'']),
      Call [''docker'', ''pull'', base_image e a],
      Call [''docker'', ''tag'', base_image e a, ''base_image'']]"

definition build_custom_image :: "env \<Rightarrow> call list" where
  "build_custom_image e =
     [Pipe (Call [''docker'', ''run'', ''-t'', ''base_image'', ''find'', ''/'', ''-name'',
          ''sagemaker_xgboost_container''])
        (Call [''tr'', ''-d'', [BS] @ ''r'']),
      Call (''echo'' # unquoted (glob e) (xgboost_path e)),
      Call [''docker'', ''build'', ''--build-arg'',
        ''xgboost_path='' @ xgboost_path e @ ''/algorithm_mode'', ''.'', ''-t'',
        ''custom_image'']]"

definition ensure_repository :: "env \<Rightarrow> string \<Rightarrow> call list" where
  "ensure_repository e a =
     [Call [''docker'', ''logout''],
      Pipe (Call [''aws'', ''ecr'', ''get-login-password'', ''--region'', region e])
        (Call [''docker'', ''login'', ''--username'', ''AWS'', ''--password-stdin'',
           account e @ ''.dkr.ecr.'' @ region e @ ''.amazonaws.com'']),
      Call [''aws'', ''ecr'', ''describe-repositories'', ''--repository-names'',
        repository_name e a]] @
     (if describe_repositories_status e \<noteq> 0 then
        [Call [''aws'', ''ecr'', ''create-repository'', ''--repository-name'',
           repository_name e a]]
      else [])"

definition push_custom_image :: "env \<Rightarrow> string \<Rightarrow> call list" where
  "push_custom_image e a =
     [Call (''echo'' # unquoted (glob e) (fullname e a)),
      Call ([''docker'', ''tag'', ''custom_image''] @ unquoted (glob e) (fullname e a)),
      Call ([''docker'', ''push''] @ unquoted (glob e) (fullname e a))]"

definition docker_build :: "env \<Rightarrow> string \<Rightarrow> call list" where
  "docker_build e a =
     get_base_image e a @ parse_base_image e a @ pull_base_image e a @
     build_custom_image e @ ensure_repository e a @ push_custom_image e a"

section \<open>The orchestration notebook \<^verbatim>\<open>walkthrough.ipynb\<close>\<close>

text \<open>
  What the notebook obtains from the SDKs is a parameter: the session's region, the
  caller's account, the default bucket, and the function behind
  \<^verbatim>\<open>sagemaker.image_uris.retrieve(region=..., framework=..., version=...)\<close>.
\<close>

record notebook_env =
  session_region :: string
  caller_account :: string
  default_bucket :: string
  image_uris_retrieve :: "string \<Rightarrow> string \<Rightarrow> string \<Rightarrow> string"

subsection \<open>Preparing sample data\<close>

text \<open>
  \<^verbatim>\<open>str.format\<close> with positional replacement fields: a template is a sequence of literal
  text and fields \<^verbatim>\<open>{i}\<close>; a field beyond the arguments raises \<^verbatim>\<open>IndexError\<close>. The field
  \<^verbatim>\<open>{}\<close> of a template with a single field is \<^verbatim>\<open>{0}\<close>.
\<close>

datatype s3_call =
    Download_file string string string
  | Upload_file string string string

datatype py_error = IndexError | S3_error s3_call

datatype template_item = Text string | Field nat

fun format :: "template_item list \<Rightarrow> string list \<Rightarrow> py_error + string" where
  "format [] args = Inr []"
| "format (Text t # items) args =
     (case format items args of Inl err \<Rightarrow> Inl err | Inr r \<Rightarrow> Inr (t @ r))"
| "format (Field i # items) args =
     (if i < length args then
        (case format items args of Inl err \<Rightarrow> Inl err | Inr r \<Rightarrow> Inr (args ! i @ r))
      else Inl IndexError)"

definition data_bucket :: string where
  "data_bucket = ''sagemaker-sample-files''"

definition data_prefix :: string where
  "data_prefix = ''datasets/tabular/uci_abalone''"

definition output_bucket :: "notebook_env \<Rightarrow> string" where
  "output_bucket nb = default_bucket nb"

definition output_prefix :: string where
  "output_prefix = ''sagemaker/DEMO-xgboost-abalone-default''"

text \<open>\<^verbatim>\<open>"{0}/{1}/abalone.{1}"\<close> and \<^verbatim>\<open>"abalone.{}"\<close>\<close>

definition key_template :: "template_item list" where
  "key_template = [Field 0, Text ''/'', Field 1, Text ''/abalone.'', Field 1]"

definition filename_template :: "template_item list" where
  "filename_template = [Text ''abalone.'', Field 0]"

definition data_key :: "string \<Rightarrow> py_error + string" where
  "data_key data_category = format key_template [data_prefix, data_category]"

definition output_key :: "string \<Rightarrow> py_error + string" where
  "output_key data_category = format key_template [output_prefix, data_category]"

definition data_filename :: "string \<Rightarrow> py_error + string" where
  "data_filename data_category = format filename_template [data_category]"

text \<open>
  The loop \<^verbatim>\<open>for data_category in [...]\<close>. A call to the storage service either returns or
  raises; which, is a parameter (\<open>ok\<close>). An exception ends the cell. The result is the
  calls made and the exception, if any.
\<close>

fun copy_loop ::
  "(s3_call \<Rightarrow> bool) \<Rightarrow> string \<Rightarrow> string list \<Rightarrow> s3_call list \<times> py_error option" where
  "copy_loop ok bucket [] = ([], None)"
| "copy_loop ok bucket (data_category # rest) =
     (case data_key data_category of
        Inl err \<Rightarrow> ([], Some err)
      | Inr dk \<Rightarrow>
     (case output_key data_category of
        Inl err \<Rightarrow> ([], Some err)
      | Inr ok_key \<Rightarrow>
     (case data_filename data_category of
        Inl err \<Rightarrow> ([], Some err)
      | Inr fn \<Rightarrow>
          if \<not> ok (Download_file data_bucket dk fn) then
            ([Download_file data_bucket dk fn],
             Some (S3_error (Download_file data_bucket dk fn)))
          else if \<not> ok (Upload_file fn bucket ok_key) then
            ([Download_file data_bucket dk fn, Upload_file fn bucket ok_key],
             Some (S3_error (Upload_file fn bucket ok_key)))
          else
            (case copy_loop ok bucket rest of
               (calls, r) \<Rightarrow>
                 (Download_file data_bucket dk fn # Upload_file fn bucket ok_key # calls, r)))))"

definition data_categories :: "string list" where
  "data_categories = [''train'', ''test'', ''validation'']"

definition copy_data :: "(s3_call \<Rightarrow> bool) \<Rightarrow> notebook_env \<Rightarrow> s3_call list \<times> py_error option" where
  "copy_data ok nb = copy_loop ok (output_bucket nb) data_categories"

subsection \<open>Pulling and modifying the container\<close>

text \<open>\<^verbatim>\<open>version = '1.2-2'\<close>\<close>

definition nb_version :: string where
  "nb_version = ''1.2-2''"

definition xgboost_container :: "notebook_env \<Rightarrow> string" where
  "xgboost_container nb = image_uris_retrieve nb (session_region nb) ''xgboost'' nb_version"

text \<open>
  \<^verbatim>\<open>f"{account}.dkr.ecr.{region}.amazonaws.com/custom_images/sagemaker-xgboost-{version}"\<close>
\<close>

definition custom_container :: "notebook_env \<Rightarrow> string" where
  "custom_container nb =
     caller_account nb @ ''.dkr.ecr.'' @ session_region nb @
     ''.amazonaws.com/custom_images/sagemaker-xgboost-'' @ nb_version"

text \<open>
  The cell writes \<open>xgboost_container\<close> to \<^verbatim>\<open>src/base_image_uri.txt\<close> and then runs
  \<^verbatim>\<open>cd src && ./docker_build.sh\<close>, without arguments: the script runs in an environment
  where the file holds what the cell wrote.
\<close>

definition write_base_image_uri :: "notebook_env \<Rightarrow> env \<Rightarrow> env" where
  "write_base_image_uri nb e = e\<lparr>base_image_uri_txt := xgboost_container nb\<rparr>"

definition build_cell :: "notebook_env \<Rightarrow> env \<Rightarrow> call list" where
  "build_cell nb e = docker_build (write_base_image_uri nb e) []"

subsection \<open>Inspecting the inference output\<close>

text \<open>
  \<^verbatim>\<open>pd.read_csv(..., index_col=None, header=None, names=[...], usecols=[0,1,3,...,10])\<close>,
  with the defaults of every other parameter. The file is given as its lines. There is no
  header line: the first line is data. Empty lines are skipped. The fields of a line are
  separated by commas. Only the fields at the positions of \<open>usecols\<close> are read, and the
  \<open>k\<close>-th name labels the field at the \<open>k\<close>-th of these positions.

  The model covers the files that the step is written for, and says so for every other
  file by the result \<open>None\<close>: some line is not empty, every line that is not empty has
  eleven fields, and every field is empty or numeric text (digits, signs, a point, an
  exponent letter, with at least one digit). On these files the reader meets no quote, no
  white space and no marker of a missing value other than the empty field. A cell holds
  the text of a field that is not empty (the reader converts it to a number when it is
  one), or the missing value \<open>NaN\<close> for an empty field. What the reader returns or raises
  on other files (no data, fewer or more fields, other text) depends on its version and is
  not modelled.
\<close>

fun split_commas :: "string \<Rightarrow> string \<Rightarrow> string list" where
  "split_commas w [] = [w]"
| "split_commas w (c # cs) =
     (if c = CHR '','' then w # split_commas [] cs else split_commas (w @ [c]) cs)"

definition names :: "string list" where
  "names = [''prediction'', ''base_values'', ''shap 1'', ''shap 2'', ''shap 3'', ''shap 4'',
     ''shap 5'', ''shap 6'', ''shap 7'', ''shap 8'']"

definition usecols :: "nat list" where
  "usecols = [0, 1, 3, 4, 5, 6, 7, 8, 9, 10]"

datatype cell = Value string | NaN

definition is_numeric_text :: "string \<Rightarrow> bool" where
  "is_numeric_text f =
     ((\<exists>c \<in> set f. c \<in> set ''0123456789'') \<and> (\<forall>c \<in> set f. c \<in> set ''0123456789.+-eE''))"

definition cell_of :: "string \<Rightarrow> cell option" where
  "cell_of f =
     (if f = [] then Some NaN else if is_numeric_text f then Some (Value f) else None)"

fun all_known :: "'a option list \<Rightarrow> 'a list option" where
  "all_known [] = Some []"
| "all_known (None # xs) = None"
| "all_known (Some x # xs) = (case all_known xs of None \<Rightarrow> None | Some ys \<Rightarrow> Some (x # ys))"

definition read_row :: "string \<Rightarrow> (string \<times> cell) list option" where
  "read_row line =
     (let fs = split_commas [] line in
      if length fs = 11 then
        (case all_known (map cell_of fs) of
           None \<Rightarrow> None
         | Some cells \<Rightarrow> Some (zip names (map (\<lambda>i. cells ! i) usecols)))
      else None)"

definition read_csv :: "string list \<Rightarrow> (string \<times> cell) list list option" where
  "read_csv lines =
     (let data = filter (\<lambda>line. line \<noteq> []) lines in
      if data = [] then None else all_known (map read_row data))"

section \<open>Observing the commands run\<close>

text \<open>Predicates and projections on the commands, used to state what the script runs.\<close>

definition is_create_repository :: "call \<Rightarrow> bool" where
  "is_create_repository c =
     (case c of Call argv \<Rightarrow> take 3 argv = [''aws'', ''ecr'', ''create-repository''] | _ \<Rightarrow> False)"

definition is_describe_repositories :: "call \<Rightarrow> bool" where
  "is_describe_repositories c =
     (case c of
        Call argv \<Rightarrow> take 3 argv = [''aws'', ''ecr'', ''describe-repositories'']
      | _ \<Rightarrow> False)"

definition is_docker_push :: "call \<Rightarrow> bool" where
  "is_docker_push c = (case c of Call argv \<Rightarrow> take 2 argv = [''docker'', ''push''] | _ \<Rightarrow> False)"

fun build_arg_values :: "string list \<Rightarrow> string list" where
  "build_arg_values [] = []"
| "build_arg_values [x] = []"
| "build_arg_values (x # y # rest) =
     (if x = ''--build-arg'' then y # build_arg_values rest else build_arg_values (y # rest))"

definition docker_build_args :: "call \<Rightarrow> string list" where
  "docker_build_args c =
     (case c of
        Call argv \<Rightarrow>
          if take 2 argv = [''docker'', ''build''] then build_arg_values (drop 2 argv) else []
      | _ \<Rightarrow> [])"

text \<open>
  The two calls that copy one category, with the keys as the specification writes them:
  \<^verbatim>\<open><prefix>/<category>/abalone.<category>\<close>.
\<close>

definition copy_category :: "string \<Rightarrow> string \<Rightarrow> s3_call list" where
  "copy_category bucket c =
     [Download_file ''sagemaker-sample-files''
        (''datasets/tabular/uci_abalone'' @ ''/'' @ c @ ''/abalone.'' @ c) (''abalone.'' @ c),
      Upload_file (''abalone.'' @ c) bucket
        (''sagemaker/DEMO-xgboost-abalone-default'' @ ''/'' @ c @ ''/abalone.'' @ c)]"

text \<open>A line of a table whose fields are the given ones.\<close>

fun join_commas :: "string list \<Rightarrow> string" where
  "join_commas [] = []"
| "join_commas [f] = f"
| "join_commas (f # g # fs) = f @ CHR '','' # join_commas (g # fs)"

section \<open>Example runs\<close>

text \<open>
  A run in region \<^verbatim>\<open>us-east-1\<close> for account \<^verbatim>\<open>123456789012\<close>, on the image that the
  notebook retrieves; the destination repository does not exist yet.
\<close>

definition example_env :: env where
  "example_env =
     \<lparr>base_image_uri_txt =
        ''683313688378.dkr.ecr.us-east-1.amazonaws.com/sagemaker-xgboost:1.2-2'',
      aws_configure_get_region = ''us-east-1'' @ [NL],
      aws_sts_get_caller_identity = ''123456789012'' @ [NL],
      aws_ecr_get_authorization_token = ''QVdTOnNlY3JldA=='' @ [NL],
      base64_d = (\<lambda>_. ''AWS:secret''),
      docker_run_find =
        ''/miniconda3/lib/python3.7/site-packages/sagemaker_xgboost_container'' @ [CR, NL],
      describe_repositories_status = 254,
      glob = (\<lambda>_. [])\<rparr>"

definition example_notebook :: notebook_env where
  "example_notebook =
     \<lparr>session_region = ''us-east-1'',
      caller_account = ''123456789012'',
      default_bucket = ''sagemaker-us-east-1-123456789012'',
      image_uris_retrieve =
        (\<lambda>r f v. ''683313688378.dkr.ecr.'' @ r @ ''.amazonaws.com/sagemaker-'' @ f @ '':'' @ v)\<rparr>"

section \<open>Properties of the regular-expression matcher\<close>

lemma cuts_concat: "(p, r) \<in> set (cuts s) \<Longrightarrow> p @ r = s"
  by (induction s arbitrary: p r) auto

lemma cuts_rest_subset: "(p, r) \<in> set (cuts s) \<Longrightarrow> set r \<subseteq> set s"
  using cuts_concat by fastforce

lemma cuts_hd: "\<exists>Y. cuts s = (s, []) # Y"
  by (induction s) auto

lemma cuts_at: "\<exists>Y. cuts (a @ c # t) = map (\<lambda>(p, r). (a @ c # p, r)) (cuts t) @ (a, c # t) # Y"
proof (induction a)
  case Nil
  show ?case by (simp add: case_prod_unfold)
next
  case (Cons x a)
  then obtain Y where "cuts (a @ c # t) = map (\<lambda>(p, r). (a @ c # p, r)) (cuts t) @ (a, c # t) # Y"
    by blast
  then have "cuts ((x # a) @ c # t) =
      map (\<lambda>(p, r). ((x # a) @ c # p, r)) (cuts t) @ (x # a, c # t) # (map (\<lambda>(p, r). (x # p, r)) Y @ [([], (x # a) @ c # t)])"
    by (simp add: case_prod_unfold comp_def)
  then show ?case by blast
qed

lemma matches_Lit_absent: "c \<notin> set s \<Longrightarrow> matches (Lit c # ps) s = []"
  by (cases s) auto

lemma matches_Lit_cut: "(p, r) \<in> set (cuts t) \<Longrightarrow> c \<notin> set t \<Longrightarrow> matches (Lit c # ps) r = []"
  using cuts_rest_subset [of p r t] by (intro matches_Lit_absent) auto

lemma concat_map_Nil: "(\<And>x. x \<in> set xs \<Longrightarrow> f x = []) \<Longrightarrow> concat (map f xs) = []"
  by (induction xs) auto

lemma matches_DotStar_at:
  assumes "c \<notin> set t"
  shows "\<exists>Y. matches (DotStar # Lit c # qs) (a @ c # t) = matches qs t @ Y"
proof -
  define F where "F = (\<lambda>(p :: string, r). matches (Lit c # qs) r)"
  define G where "G = (\<lambda>(p, r :: string). (a @ c # p, r))"
  obtain Y where Y: "cuts (a @ c # t) = map G (cuts t) @ (a, c # t) # Y"
    unfolding G_def using cuts_at by blast
  have e: "concat (map F (map G (cuts t))) = []"
    using assms by (intro concat_map_Nil) (auto simp: F_def G_def matches_Lit_cut simp del: matches.simps(2))
  have "matches (DotStar # Lit c # qs) (a @ c # t) = concat (map F (cuts (a @ c # t)))"
    by (simp add: F_def del: matches.simps(2))
  also have "\<dots> = concat (map F (map G (cuts t))) @ F (a, c # t) @ concat (map F Y)"
    by (simp only: Y map_append concat_append list.map concat.simps)
  also have "\<dots> = matches qs t @ concat (map F Y)"
    by (simp only: e) (simp add: F_def)
  finally show ?thesis by blast
qed

lemma matches_Group_at:
  assumes "c \<notin> set t"
  shows "\<exists>Y. matches (Group_DotStar # Lit c # qs) (a @ c # t) =
           map (\<lambda>(caps, rest). (a # caps, rest)) (matches qs t) @ Y"
proof -
  define F where "F = (\<lambda>(p :: string, r).
    map (\<lambda>(caps, rest). (p # caps, rest)) (matches (Lit c # qs) r))"
  define G where "G = (\<lambda>(p, r :: string). (a @ c # p, r))"
  obtain Y where Y: "cuts (a @ c # t) = map G (cuts t) @ (a, c # t) # Y"
    unfolding G_def using cuts_at by blast
  have e: "concat (map F (map G (cuts t))) = []"
    using assms by (intro concat_map_Nil) (auto simp: F_def G_def matches_Lit_cut simp del: matches.simps(2))
  have "matches (Group_DotStar # Lit c # qs) (a @ c # t) = concat (map F (cuts (a @ c # t)))"
    by (simp add: F_def del: matches.simps(2))
  also have "\<dots> = concat (map F (map G (cuts t))) @ F (a, c # t) @ concat (map F Y)"
    by (simp only: Y map_append concat_append list.map concat.simps)
  also have "\<dots> = map (\<lambda>(caps, rest). (a # caps, rest)) (matches qs t) @ concat (map F Y)"
    by (simp only: e) (simp add: F_def)
  finally show ?thesis by blast
qed

lemma matches_Group_last: "\<exists>Y. matches [Group_DotStar] s = ([s], []) # Y"
proof -
  obtain Y where "cuts s = (s, []) # Y" using cuts_hd by blast
  then show ?thesis by simp
qed

lemma longest_full_first: "snd m = [] \<Longrightarrow> longest (m # cs) = Some m"
  by (cases "longest cs") auto

lemma matches_regex_shape:
  assumes "CHR ''/'' \<notin> set name" "CHR ''/'' \<notin> set tag" "CHR '':'' \<notin> set tag"
  shows "\<exists>Y. matches regex (pre @ CHR ''/'' # name @ CHR '':'' # tag) = ([name, tag], []) # Y"
proof -
  have "CHR ''/'' \<notin> set (name @ CHR '':'' # tag)" using assms by simp
  then obtain Y1 where 1: "matches regex (pre @ CHR ''/'' # name @ CHR '':'' # tag) =
      matches [Group_DotStar, Lit (CHR '':''), Group_DotStar] (name @ CHR '':'' # tag) @ Y1"
    unfolding regex_def using matches_DotStar_at by blast
  obtain Y2 where 2: "matches [Group_DotStar, Lit (CHR '':''), Group_DotStar] (name @ CHR '':'' # tag) =
      map (\<lambda>(caps, rest). (name # caps, rest)) (matches [Group_DotStar] tag) @ Y2"
    using matches_Group_at [OF assms(3)] by blast
  obtain Y3 where 3: "matches [Group_DotStar] tag = ([tag], []) # Y3"
    using matches_Group_last by blast
  show ?thesis by (simp only: 1 2 3) simp
qed

lemma regexec_regex_shape:
  assumes "CHR ''/'' \<notin> set name" "CHR ''/'' \<notin> set tag" "CHR '':'' \<notin> set tag"
  shows "regexec regex (pre @ CHR ''/'' # name @ CHR '':'' # tag) = Some [name, tag]"
proof -
  obtain Y where Y: "matches regex (pre @ CHR ''/'' # name @ CHR '':'' # tag) = ([name, tag], []) # Y"
    using matches_regex_shape [OF assms] by blast
  obtain x xs where s: "pre @ CHR ''/'' # name @ CHR '':'' # tag = x # xs"
    by (cases pre) auto
  have "longest (matches regex (x # xs)) = Some ([name, tag], [])"
    using Y s longest_full_first by simp
  then show ?thesis using s by simp
qed

lemma set_cuts: "set (cuts s) = {(p, r). p @ r = s}"
proof (induction s)
  case Nil
  show ?case by auto
next
  case (Cons x xs)
  show ?case
  proof (intro set_eqI iffI)
    fix z assume z: "z \<in> set (cuts (x # xs))"
    obtain p r where "z = (p, r)" by (cases z)
    with z show "z \<in> {(p, r). p @ r = x # xs}"
      using cuts_concat [of p r "x # xs"] by simp
  next
    fix z assume "z \<in> {(p, r). p @ r = x # xs}"
    then obtain p r where z: "z = (p, r)" "p @ r = x # xs" by auto
    show "z \<in> set (cuts (x # xs))"
    proof (cases p)
      case Nil
      with z show ?thesis by simp
    next
      case (Cons y ys)
      with z have "y = x" "ys @ r = xs" by auto
      then have "(ys, r) \<in> set (cuts xs)" using Cons.IH by auto
      with z Cons \<open>y = x\<close> show ?thesis by (auto intro!: image_eqI [where x = "(ys, r)"])
    qed
  qed
qed

lemma concat_map_eq_Nil_iff: "concat (map f xs) = [] \<longleftrightarrow> (\<forall>x \<in> set xs. f x = [])"
  by (induction xs) auto

lemma matches_DotStar_Nil_iff:
  "matches (DotStar # ps) s = [] \<longleftrightarrow> (\<forall>p r. p @ r = s \<longrightarrow> matches ps r = [])"
  by (auto simp: concat_map_eq_Nil_iff set_cuts)

lemma matches_Group_Nil_iff:
  "matches (Group_DotStar # ps) s = [] \<longleftrightarrow> (\<forall>p r. p @ r = s \<longrightarrow> matches ps r = [])"
  by (auto simp: concat_map_eq_Nil_iff set_cuts)

lemma matches_Lit_Nil_iff:
  "matches (Lit c # ps) s = [] \<longleftrightarrow> (\<forall>t. s = c # t \<longrightarrow> matches ps t = [])"
  by (cases s) auto

lemma no_cut: "(\<forall>p r. p @ r \<noteq> (t :: 'a list)) = False"
  by (metis append_Nil)

lemma matches_regex_Nil_iff:
  "matches regex s = [] \<longleftrightarrow> \<not> (\<exists>u v w. s = u @ ''/'' @ v @ '':'' @ w)"
proof -
  have "matches regex s = [] \<longleftrightarrow>
    (\<forall>u r. u @ r = s \<longrightarrow> (\<forall>t. r = CHR ''/'' # t \<longrightarrow>
      (\<forall>v r'. v @ r' = t \<longrightarrow> (\<forall>w. r' = CHR '':'' # w \<longrightarrow> False))))"
    unfolding regex_def
    by (simp only: matches_DotStar_Nil_iff matches_Group_Nil_iff matches_Lit_Nil_iff)
      (simp add: no_cut)
  also have "\<dots> \<longleftrightarrow> \<not> (\<exists>u v w. s = u @ ''/'' @ v @ '':'' @ w)"
  proof (intro iffI notI allI impI)
    assume h: "\<forall>u r. u @ r = s \<longrightarrow> (\<forall>t. r = CHR ''/'' # t \<longrightarrow>
      (\<forall>v r'. v @ r' = t \<longrightarrow> (\<forall>w. r' = CHR '':'' # w \<longrightarrow> False)))"
    assume "\<exists>u v w. s = u @ ''/'' @ v @ '':'' @ w"
    then obtain u v w where "u @ (CHR ''/'' # (v @ CHR '':'' # w)) = s" by auto
    with h show False by blast
  next
    fix u r t v r' w
    assume n: "\<not> (\<exists>u v w. s = u @ ''/'' @ v @ '':'' @ w)"
    assume "u @ r = s" "r = CHR ''/'' # t" "v @ r' = t" "r' = CHR '':'' # w"
    then have "s = u @ ''/'' @ v @ '':'' @ w" by simp
    with n show False by blast
  qed
  finally show ?thesis .
qed

lemma longest_None_iff: "longest cs = None \<longleftrightarrow> cs = []"
  by (cases cs) (auto split: option.splits)

lemma regexec_regex_None_iff:
  "regexec regex s = None \<longleftrightarrow> \<not> (\<exists>u v w. s = u @ ''/'' @ v @ '':'' @ w)"
proof (induction s)
  case Nil
  show ?case by (simp add: longest_None_iff matches_regex_Nil_iff)
next
  case (Cons x xs)
  have "regexec regex (x # xs) = None \<longleftrightarrow>
      matches regex (x # xs) = [] \<and> regexec regex xs = None"
    by (auto simp: longest_None_iff split: option.splits)
  also have "\<dots> \<longleftrightarrow> \<not> (\<exists>u v w. x # xs = u @ ''/'' @ v @ '':'' @ w) \<and>
      \<not> (\<exists>u v w. xs = u @ ''/'' @ v @ '':'' @ w)"
    by (simp only: matches_regex_Nil_iff Cons.IH)
  also have "\<dots> \<longleftrightarrow> \<not> (\<exists>u v w. x # xs = u @ ''/'' @ v @ '':'' @ w)"
  proof -
    have "\<exists>u v w. x # xs = u @ ''/'' @ v @ '':'' @ w"
      if "xs = u @ ''/'' @ v @ '':'' @ w" for u v w
    proof -
      have "x # xs = (x # u) @ ''/'' @ v @ '':'' @ w" using that by simp
      then show ?thesis by blast
    qed
    then show ?thesis by blast
  qed
  finally show ?case .
qed

lemma cuts_append:
  "cuts (a @ b) =
     map (\<lambda>(p, r). (a @ p, r)) (cuts b) @ map (\<lambda>(p, r). (p, r @ b)) (tl (cuts a))"
proof (induction a)
  case Nil
  show ?case by (simp add: case_prod_unfold)
next
  case (Cons x a)
  obtain Y where Y: "cuts a = (a, []) # Y" using cuts_hd by blast
  have "cuts ((x # a) @ b) = map (\<lambda>(p, r). (x # p, r)) (cuts (a @ b)) @ [([], x # a @ b)]"
    by simp
  also have "\<dots> = map (\<lambda>(p, r). ((x # a) @ p, r)) (cuts b) @
      map (\<lambda>(p, r). (x # p, r @ b)) (tl (cuts a)) @ [([], x # a @ b)]"
    by (simp add: Cons.IH case_prod_unfold comp_def)
  also have "map (\<lambda>(p, r). (x # p, r @ b)) (tl (cuts a)) @ [([], x # a @ b)] =
      map (\<lambda>(p, r). (p, r @ b)) (tl (cuts (x # a)))"
    by (simp add: Y case_prod_unfold comp_def)
  finally show ?case .
qed

lemma matches_Lits_prefix: "matches (map Lit w @ ps) (w @ t) = matches ps t"
  by (induction w) auto

lemma matches_Lits_no_prefix:
  "\<not> (\<exists>t. r = w @ t) \<Longrightarrow> matches (map Lit w @ ps) r = []"
proof (induction w arbitrary: r)
  case Nil
  then show ?case by simp
next
  case (Cons c w)
  show ?case
  proof (cases r)
    case Nil
    then show ?thesis by simp
  next
    case (Cons x xs)
    show ?thesis
    proof (cases "x = c")
      case True
      with Cons Cons.prems have "\<not> (\<exists>t. xs = w @ t)" by auto
      then have "matches (map Lit w @ ps) xs = []" by (rule Cons.IH)
      with Cons True show ?thesis by simp
    next
      case False
      with Cons show ?thesis by simp
    qed
  qed
qed

lemma longest_mem: "longest cs = Some d \<Longrightarrow> d \<in> set cs"
  by (induction cs arbitrary: d) (auto split: option.splits if_splits)

lemma longest_first:
  "\<forall>c \<in> set cs. length (snd m) \<le> length (snd c) \<Longrightarrow> longest (m # cs) = Some m"
  using longest_mem by (cases "longest cs") auto


lemma matches_Lits_mem:
  "(caps, rest) \<in> set (matches (map Lit w) u) \<Longrightarrow> u = w @ rest \<and> caps = []"
proof (induction w arbitrary: u)
  case Nil
  then show ?case by simp
next
  case (Cons c w)
  then show ?case by (cases u) (auto split: if_splits)
qed

lemma matches_Group_Lits_last:
  assumes "w \<noteq> []"
    and last_one: "\<forall>p r. p \<noteq> [] \<and> p @ r = w @ t \<longrightarrow> \<not> (\<exists>t'. r = w @ t')"
  shows "\<exists>Y. matches (Group_DotStar # map Lit w) (a @ w @ t) = ([a], t) # Y \<and>
           (\<forall>c \<in> set Y. length t \<le> length (snd c))"
proof -
  define F where "F = (\<lambda>(p :: string, r).
    map (\<lambda>(caps, rest). (p # caps, rest)) (matches (map Lit w) r))"
  define G1 where "G1 = (\<lambda>(p, r :: string). (a @ p, r))"
  define G2 where "G2 = (\<lambda>(p :: string, r). (p, r @ w @ t))"
  define Y where "Y = concat (map F (map G2 (tl (cuts a))))"
  obtain x xs where x: "w @ t = x # xs" using assms(1) by (cases w) auto
  define front where "front = map (\<lambda>(p, r). (x # p, r)) (cuts xs)"
  have c: "cuts (w @ t) = front @ [([], w @ t)]"
    by (simp add: x front_def)
  have front_none: "F (G1 z) = []" if "z \<in> set front" for z
  proof -
    from that obtain p r where z: "z = (x # p, r)" "(p, r) \<in> set (cuts xs)"
      by (auto simp: front_def)
    then have "(x # p) @ r = w @ t" using cuts_concat [of p r xs] x by simp
    with last_one have "\<not> (\<exists>t'. r = w @ t')" by blast
    then have "matches (map Lit w) r = []"
      using matches_Lits_no_prefix [of r w "[]"] by simp
    with z show ?thesis by (simp add: F_def G1_def)
  qed
  have e: "concat (map F (map G1 front)) = []"
    by (intro concat_map_Nil) (auto simp: front_none)
  have here: "F (G1 ([], w @ t)) = [([a], t)]"
    using matches_Lits_prefix [of w "[]" t] by (simp add: F_def G1_def)
  have "matches (Group_DotStar # map Lit w) (a @ w @ t) = concat (map F (cuts (a @ w @ t)))"
    by (simp add: F_def)
  also have "cuts (a @ w @ t) = map G1 (cuts (w @ t)) @ map G2 (tl (cuts a))"
    unfolding G1_def G2_def by (rule cuts_append)
  also have "concat (map F (map G1 (cuts (w @ t)) @ map G2 (tl (cuts a)))) =
      concat (map F (map G1 front)) @ F (G1 ([], w @ t)) @ Y"
    by (simp only: c Y_def map_append concat_append list.map concat.simps append_Nil2 append_assoc)
  also have "\<dots> = ([a], t) # Y"
    by (simp only: e here) simp
  finally have 1: "matches (Group_DotStar # map Lit w) (a @ w @ t) = ([a], t) # Y" .
  have 2: "length t \<le> length (snd d)" if "d \<in> set Y" for d
  proof -
    from that obtain p r where pr: "(p, r) \<in> set (tl (cuts a))" "d \<in> set (F (G2 (p, r)))"
      by (auto simp: Y_def)
    then obtain caps rest where d: "d = (p # caps, rest)"
      "(caps, rest) \<in> set (matches (map Lit w) (r @ w @ t))"
      by (auto simp: F_def G2_def)
    then have "r @ w @ t = w @ rest" using matches_Lits_mem by blast
    then have "length r + length w + length t = length w + length rest"
      by (metis length_append add.assoc)
    with d show ?thesis by simp
  qed
  from 1 2 show ?thesis by blast
qed

lemma expr_match_last:
  assumes "w \<noteq> []"
    and "\<forall>p r. p \<noteq> [] \<and> p @ r = w @ t \<longrightarrow> \<not> (\<exists>t'. r = w @ t')"
  shows "expr_match (a @ w @ t) (Group_DotStar # map Lit w) = a @ [NL]"
proof -
  obtain Y where Y: "matches (Group_DotStar # map Lit w) (a @ w @ t) = ([a], t) # Y"
    "\<forall>c \<in> set Y. length t \<le> length (snd c)"
    using matches_Group_Lits_last [OF assms] by blast
  have "longest (([a], t) # Y) = Some ([a], t)"
    using Y(2) by (intro longest_first) simp
  then show ?thesis
    by (simp only: expr_match_def Y(1)) simp
qed

section \<open>Parsing the image reference\<close>

text \<open>
  Claim C1. When the base image reference ends in \<^verbatim>\<open>/<name>:<tag>\<close>, where the name and
  the tag contain no slash and the tag contains no colon (so that the name is the segment
  between the last slash and the last colon, and the tag is the segment after the last
  colon), the script sets \<^verbatim>\<open>algorithm\<close> to the name and \<^verbatim>\<open>version\<close> to the tag. In
  particular a reference ending in \<^verbatim>\<open>/xgboost:1.2-2\<close> gives \<^verbatim>\<open>xgboost\<close> and \<^verbatim>\<open>1.2-2\<close>.
\<close>

theorem parse_algorithm_version:
  "(base_image e a = pre @ ''/'' @ name @ '':'' @ tag \<and>
    CHR ''/'' \<notin> set name \<and> CHR ''/'' \<notin> set tag \<and> CHR '':'' \<notin> set tag \<longrightarrow>
    algorithm e a = name \<and> version e a = tag) \<and>
   (base_image e a = pre @ ''/xgboost:1.2-2'' \<longrightarrow>
    algorithm e a = ''xgboost'' \<and> version e a = ''1.2-2'')"
proof -
  have main: "algorithm e a = n \<and> version e a = t"
    if "base_image e a = pre @ ''/'' @ n @ '':'' @ t"
      and "CHR ''/'' \<notin> set n" and "CHR ''/'' \<notin> set t" and "CHR '':'' \<notin> set t" for n t
  proof -
    have "regexec regex (base_image e a) = Some [n, t]"
      using regexec_regex_shape [OF that(2-4), of pre] that(1) by simp
    then show ?thesis
      by (simp add: algorithm_def version_def bash_rematch_def)
  qed
  have "algorithm e a = ''xgboost'' \<and> version e a = ''1.2-2''"
    if "base_image e a = pre @ ''/xgboost:1.2-2''"
    using main [of "''xgboost''" "''1.2-2''"] that by simp
  with main show ?thesis by blast
qed

theorem parse_algorithm_version_witness:
  "algorithm example_env ''683313688378.dkr.ecr.us-east-1.amazonaws.com/sagemaker-xgboost:1.2-2''
     = ''sagemaker-xgboost'' \<and>
   version example_env ''683313688378.dkr.ecr.us-east-1.amazonaws.com/sagemaker-xgboost:1.2-2''
     = ''1.2-2'' \<and>
   algorithm example_env ''localhost:5000/xgboost:1.2-2'' = ''xgboost'' \<and>
   version example_env ''localhost:5000/xgboost:1.2-2'' = ''1.2-2''"
  using parse_algorithm_version [of example_env
      "''683313688378.dkr.ecr.us-east-1.amazonaws.com/sagemaker-xgboost:1.2-2''"
      "''683313688378.dkr.ecr.us-east-1.amazonaws.com''" "''sagemaker-xgboost''" "''1.2-2''"]
    parse_algorithm_version [of example_env "''localhost:5000/xgboost:1.2-2''"
      "''localhost:5000''" "''xgboost''" "''1.2-2''"]
  by (simp add: base_image_def)

section \<open>Properties of the shell primitives\<close>

lemma split_fields_plain:
  "\<forall>c \<in> set s. \<not> is_ifs c \<Longrightarrow> split_fields w s = (if w @ s = [] then [] else [w @ s])"
  by (induction s arbitrary: w) auto

lemma unquoted_plain:
  "\<forall>c \<in> set v. \<not> is_ifs c \<Longrightarrow> g v = [] \<Longrightarrow> v \<noteq> [] \<Longrightarrow> unquoted g v = [v]"
  by (simp add: unquoted_def split_fields_plain pathname_expansion_def)

lemma command_substitution_id: "s = [] \<or> last s \<noteq> NL \<Longrightarrow> command_substitution s = s"
proof (cases s rule: rev_cases)
  case Nil
  then show ?thesis by (simp add: command_substitution_def)
next
  case (snoc ys y)
  assume "s = [] \<or> last s \<noteq> NL"
  with snoc have "y \<noteq> NL" by simp
  with snoc show ?thesis by (simp add: command_substitution_def)
qed

lemma command_substitution_newline:
  "command_substitution (s @ [NL]) = command_substitution s"
  by (simp add: command_substitution_def)

lemma fullname_not_Nil: "fullname e a \<noteq> []"
  by (simp add: fullname_def)

section \<open>The example run, evaluated\<close>

lemma example_fullname:
  "fullname example_env [] =
     ''123456789012.dkr.ecr.us-east-1.amazonaws.com/custom_images/sagemaker-xgboost-1.2-2''"
  by code_simp

lemma example_fullname_plain:
  "(\<forall>c \<in> set (fullname example_env []). \<not> is_ifs c) \<and>
   glob example_env (fullname example_env []) = []"
  unfolding example_fullname by (simp add: is_ifs_def TAB_def NL_def example_env_def)

lemma example_repository_name:
  "repository_name example_env [] = ''custom_images/sagemaker-xgboost-1.2-2''"
  by code_simp

lemma example_repository_name_exists:
  "repository_name (example_env\<lparr>describe_repositories_status := 0\<rparr>) [] =
     ''custom_images/sagemaker-xgboost-1.2-2''"
  by code_simp

lemma example_status:
  "describe_repositories_status example_env = 254 \<and>
   describe_repositories_status (example_env\<lparr>describe_repositories_status := 0\<rparr>) = 0"
  by (simp add: example_env_def)

lemma example_no_match: "regexec regex (base_image example_env ''ubuntu:20.04'') = None"
  by code_simp

lemma example_no_match_push:
  "unquoted (glob example_env)
     (account example_env @ ''.dkr.ecr.'' @ region example_env @ ''.amazonaws.com/custom_images/-'') =
   [''123456789012.dkr.ecr.us-east-1.amazonaws.com/custom_images/-'']"
  by code_simp

lemma example_xgboost_container:
  "xgboost_container example_notebook =
     ''683313688378.dkr.ecr.us-east-1.amazonaws.com/sagemaker-xgboost:1.2-2''"
  by code_simp

lemma example_same_identity:
  "caller_account example_notebook = account example_env \<and>
   session_region example_notebook = region example_env"
  by code_simp

lemma example_algorithm_version:
  "algorithm (write_base_image_uri example_notebook example_env) [] = ''sagemaker-xgboost'' \<and>
   version (write_base_image_uri example_notebook example_env) [] = nb_version"
  by code_simp

lemma example_identity_written:
  "caller_account example_notebook = account (write_base_image_uri example_notebook example_env) \<and>
   session_region example_notebook = region (write_base_image_uri example_notebook example_env)"
  by code_simp

lemma example_other_tag:
  "algorithm example_env ''683313688378.dkr.ecr.us-east-1.amazonaws.com/sagemaker-xgboost:1.0-1-cpu-py3'' @
     ''-'' @
     version example_env ''683313688378.dkr.ecr.us-east-1.amazonaws.com/sagemaker-xgboost:1.0-1-cpu-py3'' \<noteq>
   ''sagemaker-xgboost-'' @ nb_version"
  by code_simp

section \<open>The commands of the customization procedure\<close>

lemmas script_defs = docker_build_def get_base_image_def parse_base_image_def
  pull_base_image_def build_custom_image_def ensure_repository_def push_custom_image_def

text \<open>
  Claim C2, as the code has it. The script runs exactly one \<^verbatim>\<open>docker build\<close>, with exactly
  one build argument, \<^verbatim>\<open>xgboost_path\<close>. Its value is not the located directory itself but
  the located path followed by \<^verbatim>\<open>/algorithm_mode\<close>, where the located path is the output of
  the name search with carriage returns and trailing newlines removed.
\<close>

theorem build_arg_is_algorithm_mode_subdirectory:
  "concat (map docker_build_args (docker_build e a)) =
     [''xgboost_path='' @ xgboost_path e @ ''/algorithm_mode''] \<and>
   xgboost_path e = command_substitution (filter (\<lambda>c. c \<noteq> CR) (docker_run_find e))"
  by (simp add: script_defs docker_build_args_def xgboost_path_def)

theorem build_arg_witness:
  "concat (map docker_build_args (docker_build example_env [])) =
     [''xgboost_path=/miniconda3/lib/python3.7/site-packages/sagemaker_xgboost_container/algorithm_mode'']"
  using build_arg_is_algorithm_mode_subdirectory [of example_env "[]"]
  by (simp add: example_env_def command_substitution_def CR_def NL_def)

text \<open>
  Claim C2 as stated fails: in the example run the search locates
  \<^verbatim>\<open>.../sagemaker_xgboost_container\<close>, and the build argument is
  \<^verbatim>\<open>.../sagemaker_xgboost_container/algorithm_mode\<close>, which is not the located path.
\<close>

theorem build_arg_is_not_located_path:
  "xgboost_path example_env =
     ''/miniconda3/lib/python3.7/site-packages/sagemaker_xgboost_container'' \<and>
   concat (map docker_build_args (docker_build example_env [])) =
     [''xgboost_path=/miniconda3/lib/python3.7/site-packages/sagemaker_xgboost_container/algorithm_mode''] \<and>
   concat (map docker_build_args (docker_build example_env [])) \<noteq>
     [''xgboost_path='' @ xgboost_path example_env]"
  by (simp add: script_defs docker_build_args_def xgboost_path_def example_env_def
      command_substitution_def CR_def NL_def)

text \<open>
  Claim C3. Among the commands of a run, the repository commands are the existence check,
  once, followed by the creation exactly when the check's exit status is not zero; the
  creation, when it is run, is the command right after the check, and no other command of
  the run checks or creates a repository. So a run creates the repository if and only if
  the check fails.
\<close>

theorem create_repository_iff_describe_fails:
  "filter (\<lambda>c. is_describe_repositories c \<or> is_create_repository c) (docker_build e a) =
     Call [''aws'', ''ecr'', ''describe-repositories'', ''--repository-names'', repository_name e a] #
     (if describe_repositories_status e = 0 then []
      else [Call [''aws'', ''ecr'', ''create-repository'', ''--repository-name'', repository_name e a]]) \<and>
   ((\<exists>c \<in> set (docker_build e a). is_create_repository c) \<longleftrightarrow> describe_repositories_status e \<noteq> 0) \<and>
   (\<exists>before after. docker_build e a =
      before @
      Call [''aws'', ''ecr'', ''describe-repositories'', ''--repository-names'', repository_name e a] #
      (if describe_repositories_status e = 0 then []
       else [Call [''aws'', ''ecr'', ''create-repository'', ''--repository-name'', repository_name e a]]) @
      after \<and>
      \<not> (\<exists>c \<in> set (before @ after). is_describe_repositories c \<or> is_create_repository c))"
proof -
  let ?d = "Call [''aws'', ''ecr'', ''describe-repositories'', ''--repository-names'', repository_name e a]"
  let ?c = "(if describe_repositories_status e = 0 then []
       else [Call [''aws'', ''ecr'', ''create-repository'', ''--repository-name'', repository_name e a]])"
  let ?before = "get_base_image e a @ parse_base_image e a @ pull_base_image e a @
     build_custom_image e @ [Call [''docker'', ''logout''],
      Pipe (Call [''aws'', ''ecr'', ''get-login-password'', ''--region'', region e])
        (Call [''docker'', ''login'', ''--username'', ''AWS'', ''--password-stdin'',
           account e @ ''.dkr.ecr.'' @ region e @ ''.amazonaws.com''])]"
  have 1: "filter (\<lambda>c. is_describe_repositories c \<or> is_create_repository c) (docker_build e a) = ?d # ?c"
    by (simp add: script_defs is_describe_repositories_def is_create_repository_def)
  have "filter is_create_repository (docker_build e a) = ?c"
    by (simp add: script_defs is_create_repository_def)
  then have "(filter is_create_repository (docker_build e a) = []) \<longleftrightarrow> describe_repositories_status e = 0"
    by simp
  then have 2: "(\<exists>c \<in> set (docker_build e a). is_create_repository c) \<longleftrightarrow> describe_repositories_status e \<noteq> 0"
    by (simp only: filter_empty_conv) auto
  have 3: "docker_build e a = ?before @ ?d # ?c @ push_custom_image e a"
    by (simp add: docker_build_def ensure_repository_def)
  have "filter (\<lambda>c. is_describe_repositories c \<or> is_create_repository c)
      (?before @ push_custom_image e a) = []"
    by (simp add: script_defs is_describe_repositories_def is_create_repository_def)
  then have 4: "\<not> (\<exists>c \<in> set (?before @ push_custom_image e a). is_describe_repositories c \<or> is_create_repository c)"
    by (simp only: filter_empty_conv) auto
  from 3 4 have "\<exists>before after. docker_build e a = before @ ?d # ?c @ after \<and>
      \<not> (\<exists>c \<in> set (before @ after). is_describe_repositories c \<or> is_create_repository c)"
    by blast
  with 1 2 show ?thesis by blast
qed


theorem create_repository_witness:
  "filter (\<lambda>c. is_describe_repositories c \<or> is_create_repository c)
     (docker_build example_env []) =
     [Call [''aws'', ''ecr'', ''describe-repositories'', ''--repository-names'',
        ''custom_images/sagemaker-xgboost-1.2-2''],
      Call [''aws'', ''ecr'', ''create-repository'', ''--repository-name'',
        ''custom_images/sagemaker-xgboost-1.2-2'']] \<and>
   filter (\<lambda>c. is_describe_repositories c \<or> is_create_repository c)
     (docker_build (example_env\<lparr>describe_repositories_status := 0\<rparr>) []) =
     [Call [''aws'', ''ecr'', ''describe-repositories'', ''--repository-names'',
        ''custom_images/sagemaker-xgboost-1.2-2'']]"
proof -
  have "filter (\<lambda>c. is_describe_repositories c \<or> is_create_repository c)
      (docker_build example_env []) =
      [Call [''aws'', ''ecr'', ''describe-repositories'', ''--repository-names'',
         repository_name example_env []],
       Call [''aws'', ''ecr'', ''create-repository'', ''--repository-name'',
         repository_name example_env []]]"
    using create_repository_iff_describe_fails [of example_env "[]"] example_status by simp
  moreover have "filter (\<lambda>c. is_describe_repositories c \<or> is_create_repository c)
      (docker_build (example_env\<lparr>describe_repositories_status := 0\<rparr>) []) =
      [Call [''aws'', ''ecr'', ''describe-repositories'', ''--repository-names'',
         repository_name (example_env\<lparr>describe_repositories_status := 0\<rparr>) []]]"
    using create_repository_iff_describe_fails
      [of "example_env\<lparr>describe_repositories_status := 0\<rparr>" "[]"] example_status
    by simp
  ultimately show ?thesis
    by (simp only: example_repository_name example_repository_name_exists)
qed

text \<open>
  Claim C8. The variable \<^verbatim>\<open>fullname\<close> is
  \<^verbatim>\<open><account>.dkr.ecr.<region>.amazonaws.com/custom_images/<algorithm>-<version>\<close>, and the
  run has exactly one \<^verbatim>\<open>docker push\<close>, of the unquoted expansion of that variable. When the
  name contains no blank and is not expanded as a pathname pattern, the last three commands
  of the run print it, tag \<^verbatim>\<open>custom_image\<close> with it and push it.
\<close>

theorem pushed_name:
  "fullname e a =
     account e @ ''.dkr.ecr.'' @ region e @ ''.amazonaws.com/custom_images/'' @
     algorithm e a @ ''-'' @ version e a \<and>
   filter is_docker_push (docker_build e a) =
     [Call ([''docker'', ''push''] @ unquoted (glob e) (fullname e a))] \<and>
   ((\<forall>c \<in> set (fullname e a). \<not> is_ifs c) \<and> glob e (fullname e a) = [] \<longrightarrow>
    filter is_docker_push (docker_build e a) = [Call [''docker'', ''push'', fullname e a]] \<and>
    (\<exists>before. docker_build e a =
       before @
       [Call [''echo'', fullname e a],
        Call [''docker'', ''tag'', ''custom_image'', fullname e a],
        Call [''docker'', ''push'', fullname e a]]))"
proof -
  have 1: "fullname e a =
     account e @ ''.dkr.ecr.'' @ region e @ ''.amazonaws.com/custom_images/'' @
     algorithm e a @ ''-'' @ version e a"
    by (simp add: fullname_def namespace_def)
  have 2: "filter is_docker_push (docker_build e a) =
     [Call ([''docker'', ''push''] @ unquoted (glob e) (fullname e a))]"
    by (simp add: script_defs is_docker_push_def)
  have 3: "filter is_docker_push (docker_build e a) = [Call [''docker'', ''push'', fullname e a]] \<and>
    (\<exists>before. docker_build e a =
       before @
       [Call [''echo'', fullname e a],
        Call [''docker'', ''tag'', ''custom_image'', fullname e a],
        Call [''docker'', ''push'', fullname e a]])"
    if "\<forall>c \<in> set (fullname e a). \<not> is_ifs c" and "glob e (fullname e a) = []"
  proof -
    have u: "unquoted (glob e) (fullname e a) = [fullname e a]"
      using that fullname_not_Nil by (intro unquoted_plain)
    have "docker_build e a =
       (get_base_image e a @ parse_base_image e a @ pull_base_image e a @
        build_custom_image e @ ensure_repository e a) @
       [Call [''echo'', fullname e a],
        Call [''docker'', ''tag'', ''custom_image'', fullname e a],
        Call [''docker'', ''push'', fullname e a]]"
      by (simp add: docker_build_def push_custom_image_def u)
    then show ?thesis using 2 u by auto
  qed
  from 1 2 3 show ?thesis by blast
qed

theorem pushed_name_witness:
  "filter is_docker_push (docker_build example_env []) =
     [Call [''docker'', ''push'',
        ''123456789012.dkr.ecr.us-east-1.amazonaws.com/custom_images/sagemaker-xgboost-1.2-2'']]"
proof -
  have "filter is_docker_push (docker_build example_env []) =
      [Call [''docker'', ''push'', fullname example_env []]]"
    using pushed_name [of example_env "[]"] example_fullname_plain by blast
  then show ?thesis by (simp only: example_fullname)
qed


text \<open>
  Claim C5. When the base image reference does not match the pattern (by
  \<open>regexec_regex_None_iff\<close>: when it has no slash that is followed, somewhere, by a colon),
  \<^verbatim>\<open>algorithm\<close> and \<^verbatim>\<open>version\<close> are empty, and the run goes on with them: the repository
  checked is \<^verbatim>\<open>custom_images/-\<close>, and the last command of the run pushes
  \<^verbatim>\<open><account>.dkr.ecr.<region>.amazonaws.com/custom_images/-\<close>.
\<close>

theorem no_match_continues:
  assumes "regexec regex (base_image e a) = None"
  shows "algorithm e a = [] \<and> version e a = [] \<and>
    repository_name e a = ''custom_images/-'' \<and>
    fullname e a = account e @ ''.dkr.ecr.'' @ region e @ ''.amazonaws.com/custom_images/-'' \<and>
    Call [''aws'', ''ecr'', ''describe-repositories'', ''--repository-names'', ''custom_images/-'']
      \<in> set (docker_build e a) \<and>
    last (docker_build e a) =
      Call ([''docker'', ''push''] @
        unquoted (glob e) (account e @ ''.dkr.ecr.'' @ region e @ ''.amazonaws.com/custom_images/-''))"
proof -
  have av: "algorithm e a = []" "version e a = []"
    using assms by (simp_all add: algorithm_def version_def bash_rematch_def)
  then have rn: "repository_name e a = ''custom_images/-''"
    and fn: "fullname e a = account e @ ''.dkr.ecr.'' @ region e @ ''.amazonaws.com/custom_images/-''"
    by (simp_all add: repository_name_def fullname_def namespace_def)
  have "Call [''aws'', ''ecr'', ''describe-repositories'', ''--repository-names'', repository_name e a]
      \<in> set (docker_build e a)"
    by (simp add: docker_build_def ensure_repository_def)
  moreover have "last (docker_build e a) =
      Call ([''docker'', ''push''] @ unquoted (glob e) (fullname e a))"
    by (simp add: docker_build_def push_custom_image_def)
  ultimately show ?thesis using av rn fn by simp
qed

theorem no_match_continues_witness:
  "algorithm example_env ''ubuntu:20.04'' = [] \<and> version example_env ''ubuntu:20.04'' = [] \<and>
   repository_name example_env ''ubuntu:20.04'' = ''custom_images/-'' \<and>
   last (docker_build example_env ''ubuntu:20.04'') =
     Call [''docker'', ''push'', ''123456789012.dkr.ecr.us-east-1.amazonaws.com/custom_images/-'']"
proof -
  note h = no_match_continues [OF example_no_match]
  from h have "last (docker_build example_env ''ubuntu:20.04'') =
      Call ([''docker'', ''push''] @ unquoted (glob example_env)
        (account example_env @ ''.dkr.ecr.'' @ region example_env @ ''.amazonaws.com/custom_images/-''))"
    by blast
  then have "last (docker_build example_env ''ubuntu:20.04'') =
     Call [''docker'', ''push'', ''123456789012.dkr.ecr.us-east-1.amazonaws.com/custom_images/-'']"
    by (simp only: example_no_match_push) simp
  with h show ?thesis by blast
qed

section \<open>The base image reference\<close>

text \<open>
  Claim C7. With a non-empty first argument the base image reference is that argument.
  Without one it is the contents of \<^verbatim>\<open>base_image_uri.txt\<close>, less trailing newlines; the
  notebook's cell writes the retrieved reference to that file, so the script, run by the
  cell, uses exactly the reference written (an image reference does not end in a newline).
\<close>

theorem base_image_source:
  "(a \<noteq> [] \<longrightarrow> base_image e a = a) \<and>
   base_image e [] = command_substitution (base_image_uri_txt e) \<and>
   base_image_uri_txt (write_base_image_uri nb e) = xgboost_container nb \<and>
   (xgboost_container nb = [] \<or> last (xgboost_container nb) \<noteq> NL \<longrightarrow>
    base_image (write_base_image_uri nb e) [] = xgboost_container nb \<and>
    base_image (write_base_image_uri nb e) [] = base_image_uri_txt (write_base_image_uri nb e))"
  by (simp add: base_image_def write_base_image_uri_def command_substitution_id)

theorem base_image_source_witness:
  "base_image example_env ''localhost:5000/xgboost:1.2-2'' = ''localhost:5000/xgboost:1.2-2'' \<and>
   base_image (write_base_image_uri example_notebook example_env) [] =
     ''683313688378.dkr.ecr.us-east-1.amazonaws.com/sagemaker-xgboost:1.2-2''"
proof -
  have "last (xgboost_container example_notebook) \<noteq> NL"
    by (simp only: example_xgboost_container) (simp add: NL_def)
  then have "base_image (write_base_image_uri example_notebook example_env) [] =
      xgboost_container example_notebook"
    using base_image_source [of "[]" example_env example_notebook] by blast
  moreover have "base_image example_env ''localhost:5000/xgboost:1.2-2'' = ''localhost:5000/xgboost:1.2-2''"
    using base_image_source [of "''localhost:5000/xgboost:1.2-2''" example_env example_notebook]
    by simp
  ultimately show ?thesis by (simp only: example_xgboost_container) 
qed


section \<open>The hosting account and region\<close>

text \<open>
  What the script computes as the hosting region: when the reference, from offset 21 on,
  is \<open>r\<close> followed by \<^verbatim>\<open>.amazon\<close> and a rest in which \<^verbatim>\<open>.amazon\<close> does not occur again, the
  region is \<open>r\<close>. The match of \<^verbatim>\<open>.*\<close> thus ends at the last \<^verbatim>\<open>.amazon\<close> of the reference.
\<close>

lemma base_region_last_amazon:
  assumes "substring_from (base_image e a) 21 = r @ ''.amazon'' @ t"
    and "\<forall>p q. p \<noteq> [] \<and> p @ q = ''.amazon'' @ t \<longrightarrow> \<not> (\<exists>t'. q = ''.amazon'' @ t')"
    and "r = [] \<or> last r \<noteq> NL"
  shows "base_region e a = r"
proof -
  have "expr_match (r @ ''.amazon'' @ t) amazon_pattern = r @ [NL]"
    unfolding amazon_pattern_def using assms(2) by (intro expr_match_last) simp_all
  then show ?thesis
    using assms(1,3)
    by (simp add: base_region_def command_substitution_newline command_substitution_id)
qed

text \<open>
  Claim C6. On the reference
  \<^verbatim>\<open>123456789012.dkr.ecr.us-east-1.amazonaws.com/team.amazon-linux/xgboost:1.2-2\<close> the script
  takes the first twelve characters as the hosting account, but \<^verbatim>\<open>expr\<close> matches \<^verbatim>\<open>.*\<close> as
  far as it can, up to the last \<^verbatim>\<open>.amazon\<close> of the reference, so that the hosting region is
  \<^verbatim>\<open>us-east-1.amazonaws.com/team\<close> and not \<^verbatim>\<open>us-east-1\<close>. On the reference that the notebook
  retrieves, where \<^verbatim>\<open>.amazon\<close> occurs once, the region is \<^verbatim>\<open>us-east-1\<close>.
\<close>

theorem base_region_takes_last_amazon:
  "base_account e ''123456789012.dkr.ecr.us-east-1.amazonaws.com/team.amazon-linux/xgboost:1.2-2'' =
     ''123456789012'' \<and>
   base_region e ''123456789012.dkr.ecr.us-east-1.amazonaws.com/team.amazon-linux/xgboost:1.2-2'' =
     ''us-east-1.amazonaws.com/team'' \<and>
   base_account e ''683313688378.dkr.ecr.us-east-1.amazonaws.com/sagemaker-xgboost:1.2-2'' =
     ''683313688378'' \<and>
   base_region e ''683313688378.dkr.ecr.us-east-1.amazonaws.com/sagemaker-xgboost:1.2-2'' =
     ''us-east-1''"
proof -
  have 1: "command_substitution (expr_match
      (substring_from ''123456789012.dkr.ecr.us-east-1.amazonaws.com/team.amazon-linux/xgboost:1.2-2'' 21)
      amazon_pattern) = ''us-east-1.amazonaws.com/team''"
    by code_simp
  have 2: "command_substitution (expr_match
      (substring_from ''683313688378.dkr.ecr.us-east-1.amazonaws.com/sagemaker-xgboost:1.2-2'' 21)
      amazon_pattern) = ''us-east-1''"
    by code_simp
  have 3: "substring ''123456789012.dkr.ecr.us-east-1.amazonaws.com/team.amazon-linux/xgboost:1.2-2'' 0 12 =
      ''123456789012''"
    by code_simp
  have 4: "substring ''683313688378.dkr.ecr.us-east-1.amazonaws.com/sagemaker-xgboost:1.2-2'' 0 12 =
      ''683313688378''"
    by code_simp
  have 5: "base_image e ''123456789012.dkr.ecr.us-east-1.amazonaws.com/team.amazon-linux/xgboost:1.2-2'' =
      ''123456789012.dkr.ecr.us-east-1.amazonaws.com/team.amazon-linux/xgboost:1.2-2''"
    by (simp add: base_image_def)
  have 6: "base_image e ''683313688378.dkr.ecr.us-east-1.amazonaws.com/sagemaker-xgboost:1.2-2'' =
      ''683313688378.dkr.ecr.us-east-1.amazonaws.com/sagemaker-xgboost:1.2-2''"
    by (simp add: base_image_def)
  show ?thesis
    unfolding base_region_def base_account_def
    by (simp only: 5 6 1 2 3 4 simp_thms)
qed

section \<open>The custom image name of the notebook\<close>

text \<open>
  Claim C10, as the code has it. When the notebook and the script resolve the same account
  and region, the name that the notebook builds equals the name that the script pushes
  exactly when \<^verbatim>\<open><algorithm>-<version>\<close>, as parsed by the script, is the string
  \<^verbatim>\<open>sagemaker-xgboost-1.2-2\<close>; this is so whenever the algorithm is \<^verbatim>\<open>sagemaker-xgboost\<close>
  and the version is \<^verbatim>\<open>1.2-2\<close>. Nothing else ties the two names, and they differ for other
  references.
\<close>

theorem custom_container_vs_fullname:
  assumes "caller_account nb = account e" and "session_region nb = region e"
  shows "(custom_container nb = fullname e a \<longleftrightarrow>
          algorithm e a @ ''-'' @ version e a = ''sagemaker-xgboost-'' @ nb_version) \<and>
         (algorithm e a = ''sagemaker-xgboost'' \<and> version e a = nb_version \<longrightarrow>
          custom_container nb = fullname e a)"
  using assms by (auto simp: custom_container_def fullname_def namespace_def)

theorem custom_container_vs_fullname_witness:
  "custom_container example_notebook =
     fullname (write_base_image_uri example_notebook example_env) [] \<and>
   custom_container example_notebook \<noteq>
     fullname example_env ''683313688378.dkr.ecr.us-east-1.amazonaws.com/sagemaker-xgboost:1.0-1-cpu-py3''"
proof -
  have "custom_container example_notebook =
      fullname (write_base_image_uri example_notebook example_env) []"
    using custom_container_vs_fullname
      [of example_notebook "write_base_image_uri example_notebook example_env" "[]"]
      example_identity_written example_algorithm_version
    by blast
  moreover have "custom_container example_notebook \<noteq>
      fullname example_env ''683313688378.dkr.ecr.us-east-1.amazonaws.com/sagemaker-xgboost:1.0-1-cpu-py3''"
    using custom_container_vs_fullname
      [of example_notebook example_env
        "''683313688378.dkr.ecr.us-east-1.amazonaws.com/sagemaker-xgboost:1.0-1-cpu-py3''"]
      example_same_identity example_other_tag
    by blast
  ultimately show ?thesis by blast
qed

text \<open>
  Claim C10 as stated fails in the direction "only when": the reference
  \<^verbatim>\<open>.../sagemaker:xgboost-1.2-2\<close> parses to the algorithm \<^verbatim>\<open>sagemaker\<close>, not
  \<^verbatim>\<open>sagemaker-xgboost\<close>, and the script still pushes to the name that the notebook builds.
\<close>

theorem custom_container_ambiguous_split:
  "custom_container example_notebook =
     fullname example_env ''123456789012.dkr.ecr.us-east-1.amazonaws.com/sagemaker:xgboost-1.2-2'' \<and>
   algorithm example_env ''123456789012.dkr.ecr.us-east-1.amazonaws.com/sagemaker:xgboost-1.2-2'' =
     ''sagemaker'' \<and>
   version example_env ''123456789012.dkr.ecr.us-east-1.amazonaws.com/sagemaker:xgboost-1.2-2'' =
     ''xgboost-1.2-2'' \<and>
   algorithm example_env ''123456789012.dkr.ecr.us-east-1.amazonaws.com/sagemaker:xgboost-1.2-2'' \<noteq>
     ''sagemaker-xgboost''"
  by code_simp

section \<open>Staging the data\<close>

lemma data_key_eq: "data_key c = Inr (data_prefix @ ''/'' @ c @ ''/abalone.'' @ c)"
  by (simp add: data_key_def key_template_def)

lemma output_key_eq: "output_key c = Inr (output_prefix @ ''/'' @ c @ ''/abalone.'' @ c)"
  by (simp add: output_key_def key_template_def)

lemma data_filename_eq: "data_filename c = Inr (''abalone.'' @ c)"
  by (simp add: data_filename_def filename_template_def)

lemma copy_loop_all_ok:
  "(\<forall>c. ok c) \<Longrightarrow> copy_loop ok b cs = (concat (map (copy_category b) cs), None)"
  by (induction cs)
    (simp_all add: data_key_eq output_key_eq data_filename_eq copy_category_def
      data_bucket_def data_prefix_def output_prefix_def)

lemma copy_loop_prefix:
  "\<exists>n. fst (copy_loop ok b cs) = take n (concat (map (copy_category b) cs))"
proof (induction cs)
  case Nil
  show ?case by simp
next
  case (Cons c cs)
  then obtain n where n: "fst (copy_loop ok b cs) = take n (concat (map (copy_category b) cs))"
    by blast
  let ?d = "Download_file data_bucket (data_prefix @ ''/'' @ c @ ''/abalone.'' @ c) (''abalone.'' @ c)"
  let ?u = "Upload_file (''abalone.'' @ c) b (output_prefix @ ''/'' @ c @ ''/abalone.'' @ c)"
  have cc: "copy_category b c = [?d, ?u]"
    by (simp add: copy_category_def data_bucket_def data_prefix_def output_prefix_def)
  consider "\<not> ok ?d" | "ok ?d" "\<not> ok ?u" | "ok ?d" "ok ?u" by blast
  then show ?case
  proof cases
    case 1
    then have "fst (copy_loop ok b (c # cs)) = take 1 (concat (map (copy_category b) (c # cs)))"
      by (simp add: data_key_eq output_key_eq data_filename_eq cc)
    then show ?thesis by blast
  next
    case 2
    then have "fst (copy_loop ok b (c # cs)) = take 2 (concat (map (copy_category b) (c # cs)))"
      by (simp add: data_key_eq output_key_eq data_filename_eq cc)
    then show ?thesis by blast
  next
    case 3
    then have "fst (copy_loop ok b (c # cs)) = take (Suc (Suc n)) (concat (map (copy_category b) (c # cs)))"
      using n by (auto simp: data_key_eq output_key_eq data_filename_eq cc split: prod.splits)
    then show ?thesis by blast
  qed
qed

text \<open>
  Claim C9. For every category the source key is \<^verbatim>\<open><data_prefix>/<category>/abalone.<category>\<close>
  and the destination key is \<^verbatim>\<open><output_prefix>/<category>/abalone.<category>\<close>. The calls of
  the copy step are calls of the download and the upload of the three categories train,
  test and validation, in this order, up to the first call that raises; when no call
  raises they are exactly these six calls.
\<close>

theorem copy_data_keys:
  "data_key c = Inr (data_prefix @ ''/'' @ c @ ''/abalone.'' @ c) \<and>
   output_key c = Inr (output_prefix @ ''/'' @ c @ ''/abalone.'' @ c) \<and>
   (\<exists>n. fst (copy_data ok nb) =
      take n (concat (map (copy_category (output_bucket nb)) [''train'', ''test'', ''validation'']))) \<and>
   ((\<forall>x. ok x) \<longrightarrow>
    copy_data ok nb =
      (concat (map (copy_category (output_bucket nb)) [''train'', ''test'', ''validation'']), None))"
  using copy_loop_prefix [of ok "output_bucket nb" data_categories]
    copy_loop_all_ok [of ok "output_bucket nb" data_categories]
  by (simp add: data_key_eq output_key_eq copy_data_def data_categories_def)

theorem copy_data_keys_witness:
  "data_key ''train'' = Inr ''datasets/tabular/uci_abalone/train/abalone.train'' \<and>
   output_key ''validation'' =
     Inr ''sagemaker/DEMO-xgboost-abalone-default/validation/abalone.validation'' \<and>
   copy_data (\<lambda>_. True) example_notebook =
     ([Download_file ''sagemaker-sample-files''
         ''datasets/tabular/uci_abalone/train/abalone.train'' ''abalone.train'',
       Upload_file ''abalone.train'' ''sagemaker-us-east-1-123456789012''
         ''sagemaker/DEMO-xgboost-abalone-default/train/abalone.train'',
       Download_file ''sagemaker-sample-files''
         ''datasets/tabular/uci_abalone/test/abalone.test'' ''abalone.test'',
       Upload_file ''abalone.test'' ''sagemaker-us-east-1-123456789012''
         ''sagemaker/DEMO-xgboost-abalone-default/test/abalone.test'',
       Download_file ''sagemaker-sample-files''
         ''datasets/tabular/uci_abalone/validation/abalone.validation'' ''abalone.validation'',
       Upload_file ''abalone.validation'' ''sagemaker-us-east-1-123456789012''
         ''sagemaker/DEMO-xgboost-abalone-default/validation/abalone.validation''],
      None)"
  using copy_data_keys [of "''train''" "\<lambda>_. True" example_notebook]
    copy_data_keys [of "''validation''" "\<lambda>_. True" example_notebook]
  by (simp add: copy_category_def data_prefix_def output_prefix_def output_bucket_def
      example_notebook_def)

section \<open>Reading the inference output\<close>

lemma split_commas_append:
  "CHR '','' \<notin> set f \<Longrightarrow> split_commas w (f @ rest) = split_commas (w @ f) rest"
  by (induction f arbitrary: w) auto

lemma split_commas_plain: "CHR '','' \<notin> set f \<Longrightarrow> split_commas w f = [w @ f]"
  using split_commas_append [of f w "[]"] by simp

lemma split_join_commas:
  "\<forall>g \<in> set (f # fs). CHR '','' \<notin> set g \<Longrightarrow> split_commas w (join_commas (f # fs)) = (w @ f) # fs"
proof (induction fs arbitrary: w f)
  case Nil
  then show ?case by (simp add: split_commas_plain)
next
  case (Cons g gs)
  have "split_commas w (join_commas (f # g # gs)) =
      split_commas (w @ f) (CHR '','' # join_commas (g # gs))"
    using Cons.prems by (simp add: split_commas_append)
  also have "\<dots> = (w @ f) # split_commas [] (join_commas (g # gs))"
    by simp
  also have "\<dots> = (w @ f) # g # gs"
    using Cons.IH [of g "[]"] Cons.prems by simp
  finally show ?case .
qed

lemma numeric_text_no_comma: "is_numeric_text f \<Longrightarrow> CHR '','' \<notin> set f"
proof
  assume "is_numeric_text f" and "CHR '','' \<in> set f"
  then have "CHR '','' \<in> set ''0123456789.+-eE''"
    unfolding is_numeric_text_def by blast
  then show False by simp
qed

lemma numeric_text_not_Nil: "is_numeric_text f \<Longrightarrow> f \<noteq> []"
  unfolding is_numeric_text_def by fastforce

lemma cell_of_numeric: "is_numeric_text f \<Longrightarrow> cell_of f = Some (Value f)"
  by (simp add: cell_of_def numeric_text_not_Nil)

lemma all_known_map_Some: "all_known (map (\<lambda>x. Some (g x)) xs) = Some (map g xs)"
  by (induction xs) auto

lemma all_known_cells:
  assumes "\<forall>f \<in> set fs. is_numeric_text f"
  shows "all_known (map cell_of fs) = Some (map Value fs)"
proof -
  have "map cell_of fs = map (\<lambda>f. Some (Value f)) fs"
    using assms by (simp add: cell_of_numeric)
  then show ?thesis by (simp only: all_known_map_Some)
qed

lemma split_join_fields:
  assumes "length fs = 11" and "\<forall>f \<in> set fs. is_numeric_text f"
  shows "split_commas [] (join_commas fs) = fs"
proof -
  obtain f gs where fs: "fs = f # gs" using assms(1) by (cases fs) auto
  have "\<forall>g \<in> set (f # gs). CHR '','' \<notin> set g"
    using assms(2) fs numeric_text_no_comma by blast
  then show ?thesis using split_join_commas [of f gs "[]"] fs by simp
qed

lemma read_row_fields:
  assumes "length fs = 11" and "\<forall>f \<in> set fs. is_numeric_text f"
  shows "read_row (join_commas fs) =
    Some [(''prediction'', Value (fs ! 0)), (''base_values'', Value (fs ! 1)),
      (''shap 1'', Value (fs ! 3)), (''shap 2'', Value (fs ! 4)),
      (''shap 3'', Value (fs ! 5)), (''shap 4'', Value (fs ! 6)),
      (''shap 5'', Value (fs ! 7)), (''shap 6'', Value (fs ! 8)),
      (''shap 7'', Value (fs ! 9)), (''shap 8'', Value (fs ! 10))]"
proof -
  have 1: "split_commas [] (join_commas fs) = fs"
    using assms by (rule split_join_fields)
  have 2: "all_known (map cell_of fs) = Some (map Value fs)"
    using assms(2) by (rule all_known_cells)
  have "read_row (join_commas fs) = Some (zip names (map (\<lambda>i. map Value fs ! i) usecols))"
    unfolding read_row_def Let_def 1 2 using assms(1) by simp
  also have "zip names (map (\<lambda>i. map Value fs ! i) usecols) =
    [(''prediction'', Value (fs ! 0)), (''base_values'', Value (fs ! 1)),
      (''shap 1'', Value (fs ! 3)), (''shap 2'', Value (fs ! 4)),
      (''shap 3'', Value (fs ! 5)), (''shap 4'', Value (fs ! 6)),
      (''shap 5'', Value (fs ! 7)), (''shap 6'', Value (fs ! 8)),
      (''shap 7'', Value (fs ! 9)), (''shap 8'', Value (fs ! 10))]"
    using assms(1) by (simp add: names_def usecols_def)
  finally show ?thesis .
qed

lemma read_rows_fields:
  assumes "\<forall>fs \<in> set rows. length fs = 11 \<and> (\<forall>f \<in> set fs. is_numeric_text f)"
  shows "all_known (map read_row (map join_commas rows)) =
    Some (map (\<lambda>fs.
      [(''prediction'', Value (fs ! 0)), (''base_values'', Value (fs ! 1)),
       (''shap 1'', Value (fs ! 3)), (''shap 2'', Value (fs ! 4)),
       (''shap 3'', Value (fs ! 5)), (''shap 4'', Value (fs ! 6)),
       (''shap 5'', Value (fs ! 7)), (''shap 6'', Value (fs ! 8)),
       (''shap 7'', Value (fs ! 9)), (''shap 8'', Value (fs ! 10))]) rows)"
  using assms
proof (induction rows)
  case Nil
  show ?case by simp
next
  case (Cons fs rows)
  then have "read_row (join_commas fs) =
    Some [(''prediction'', Value (fs ! 0)), (''base_values'', Value (fs ! 1)),
      (''shap 1'', Value (fs ! 3)), (''shap 2'', Value (fs ! 4)),
      (''shap 3'', Value (fs ! 5)), (''shap 4'', Value (fs ! 6)),
      (''shap 5'', Value (fs ! 7)), (''shap 6'', Value (fs ! 8)),
      (''shap 7'', Value (fs ! 9)), (''shap 8'', Value (fs ! 10))]"
    by (intro read_row_fields) simp_all
  moreover have "all_known (map read_row (map join_commas rows)) =
    Some (map (\<lambda>fs.
      [(''prediction'', Value (fs ! 0)), (''base_values'', Value (fs ! 1)),
       (''shap 1'', Value (fs ! 3)), (''shap 2'', Value (fs ! 4)),
       (''shap 3'', Value (fs ! 5)), (''shap 4'', Value (fs ! 6)),
       (''shap 5'', Value (fs ! 7)), (''shap 6'', Value (fs ! 8)),
       (''shap 7'', Value (fs ! 9)), (''shap 8'', Value (fs ! 10))]) rows)"
    using Cons by simp
  ultimately show ?case by simp
qed

text \<open>
  Claim C4, as the code has it. The table has no header and its empty lines are skipped:
  when the lines that are not empty are rows of eleven comma-separated numeric fields, the
  tabulation step yields one row for each of them, in order, and reads the first field as
  the prediction, the second as the base value and the fourth to the eleventh as the eight
  attribution values; the third field is not read.
\<close>

theorem read_csv_columns:
  assumes "rows \<noteq> []"
    and "\<forall>fs \<in> set rows. length fs = 11 \<and> (\<forall>f \<in> set fs. is_numeric_text f)"
    and "filter (\<lambda>line. line \<noteq> []) lines = map join_commas rows"
  shows "read_csv lines =
    Some (map (\<lambda>fs.
      [(''prediction'', Value (fs ! 0)), (''base_values'', Value (fs ! 1)),
       (''shap 1'', Value (fs ! 3)), (''shap 2'', Value (fs ! 4)),
       (''shap 3'', Value (fs ! 5)), (''shap 4'', Value (fs ! 6)),
       (''shap 5'', Value (fs ! 7)), (''shap 6'', Value (fs ! 8)),
       (''shap 7'', Value (fs ! 9)), (''shap 8'', Value (fs ! 10))]) rows)"
proof -
  have "map join_commas rows \<noteq> []" using assms(1) by simp
  then show ?thesis
    unfolding read_csv_def Let_def assms(3)
    using read_rows_fields [OF assms(2)] by simp
qed

theorem read_csv_columns_witness:
  "read_csv [''11.2,9.9,0,0.1,0.2,0.3,0.4,0.5,0.6,0.7,0.8'', [],
      ''8.5,9.9,0,-0.3,-0.2,0.0,1e-05,-0.5,-0.4,0.1,-0.1''] =
     Some [[(''prediction'', Value ''11.2''), (''base_values'', Value ''9.9''),
        (''shap 1'', Value ''0.1''), (''shap 2'', Value ''0.2''), (''shap 3'', Value ''0.3''),
        (''shap 4'', Value ''0.4''), (''shap 5'', Value ''0.5''), (''shap 6'', Value ''0.6''),
        (''shap 7'', Value ''0.7''), (''shap 8'', Value ''0.8'')],
       [(''prediction'', Value ''8.5''), (''base_values'', Value ''9.9''),
        (''shap 1'', Value ''-0.3''), (''shap 2'', Value ''-0.2''), (''shap 3'', Value ''0.0''),
        (''shap 4'', Value ''1e-05''), (''shap 5'', Value ''-0.5''), (''shap 6'', Value ''-0.4''),
        (''shap 7'', Value ''0.1''), (''shap 8'', Value ''-0.1'')]]"
proof -
  let ?r1 = "[''11.2'', ''9.9'', ''0'', ''0.1'', ''0.2'', ''0.3'', ''0.4'', ''0.5'', ''0.6'', ''0.7'', ''0.8'']"
  let ?r2 = "[''8.5'', ''9.9'', ''0'', ''-0.3'', ''-0.2'', ''0.0'', ''1e-05'', ''-0.5'', ''-0.4'', ''0.1'', ''-0.1'']"
  let ?lines = "[''11.2,9.9,0,0.1,0.2,0.3,0.4,0.5,0.6,0.7,0.8'', [],
      ''8.5,9.9,0,-0.3,-0.2,0.0,1e-05,-0.5,-0.4,0.1,-0.1'']"
  have 1: "[?r1, ?r2] \<noteq> []" by simp
  have 2: "\<forall>fs \<in> set [?r1, ?r2]. length fs = 11 \<and> (\<forall>f \<in> set fs. is_numeric_text f)"
    by code_simp
  have 3: "filter (\<lambda>line. line \<noteq> []) ?lines = map join_commas [?r1, ?r2]"
    by code_simp
  show ?thesis
    using read_csv_columns [OF 1 2 3] by simp
qed

text \<open>
  Claim C4 as stated fails. A line of the table has eleven fields, and the third of them is
  none of the columns read: the fields of the line are not the prediction, the base value
  and the eight attribution values of the row.
\<close>

theorem read_csv_skips_third_column:
  "read_csv [''11.2,9.9,0,0.1,0.2,0.3,0.4,0.5,0.6,0.7,0.8''] =
     Some [[(''prediction'', Value ''11.2''), (''base_values'', Value ''9.9''),
        (''shap 1'', Value ''0.1''), (''shap 2'', Value ''0.2''), (''shap 3'', Value ''0.3''),
        (''shap 4'', Value ''0.4''), (''shap 5'', Value ''0.5''), (''shap 6'', Value ''0.6''),
        (''shap 7'', Value ''0.7''), (''shap 8'', Value ''0.8'')]] \<and>
   split_commas [] ''11.2,9.9,0,0.1,0.2,0.3,0.4,0.5,0.6,0.7,0.8'' =
     [''11.2'', ''9.9'', ''0'', ''0.1'', ''0.2'', ''0.3'', ''0.4'', ''0.5'', ''0.6'', ''0.7'', ''0.8''] \<and>
   map Value (split_commas [] ''11.2,9.9,0,0.1,0.2,0.3,0.4,0.5,0.6,0.7,0.8'') \<noteq>
     [Value ''11.2'', Value ''9.9'', Value ''0.1'', Value ''0.2'', Value ''0.3'',
      Value ''0.4'', Value ''0.5'', Value ''0.6'', Value ''0.7'', Value ''0.8'']"
  by code_simp


end
